theory Spec2Isabelle
  imports Main
begin

section \<open>Data model\<close>

text \<open>
  Go's \<open>error\<close> values are modelled by their message. \<open>errors.New\<close> builds one from a
  string; the errors of the external packages are arbitrary values of the same type.
\<close>

datatype error = Error string

definition errors_New :: "string \<Rightarrow> error" where
  "errors_New msg = Error msg"

text \<open>\<open>schema.GroupVersionKind\<close> and \<open>schema.GroupKind\<close> of apimachinery.\<close>

record GroupKind_rec =
  gk_Group :: string
  gk_Kind :: string

record GroupVersionKind =
  Group :: string
  Version :: string
  Kind :: string

definition GroupKind :: "GroupVersionKind \<Rightarrow> GroupKind_rec" where
  "GroupKind gvk = \<lparr>gk_Group = Group gvk, gk_Kind = Kind gvk\<rparr>"

text \<open>
  \<open>GroupKind.String()\<close> is apimachinery's: the kind alone when the group is empty,
  otherwise kind, a dot and the group.
\<close>

definition GroupKind_String :: "GroupKind_rec \<Rightarrow> string" where
  "GroupKind_String gk =
     (if length (gk_Group gk) = 0 then gk_Kind gk else gk_Kind gk @ ''.'' @ gk_Group gk)"

text \<open>
  A \<open>client.Object\<close>, reduced to what the code reads from it: \<open>GetName()\<close>,
  \<open>GetNamespace()\<close> and \<open>GetObjectKind().GroupVersionKind()\<close>.
\<close>

record Object =
  GetName :: string
  GetNamespace :: string
  GetObjectKind :: GroupVersionKind

text \<open>
  The scheme and the REST mapper are fixed when the cache is built. The scheme is read
  only through \<open>apiutil.GVKForObject\<close>, the mapper only through \<open>RESTMapping\<close> followed
  by \<open>Scope.Name()\<close>; both lookups are modelled as functions that may fail.
\<close>

datatype RESTScopeName = RESTScopeNameNamespace | RESTScopeNameRoot

type_synonym Scheme = "Object \<Rightarrow> error + GroupVersionKind"
type_synonym RESTMapper = "GroupKind_rec \<Rightarrow> error + RESTScopeName"

definition GVKForObject :: "Object \<Rightarrow> Scheme \<Rightarrow> error + GroupVersionKind" where
  "GVKForObject obj sch = sch obj"

definition RESTMapping :: "RESTMapper \<Rightarrow> GroupKind_rec \<Rightarrow> error + RESTScopeName" where
  "RESTMapping m gk = m gk"

text \<open>
  Engines (\<open>cache.Cache\<close>) and informers (\<open>cache.Informer\<close>) live in controller-runtime;
  here they are opaque handles.
\<close>

type_synonym Cache = nat
type_synonym Informer = nat
type_synonym Config = nat
type_synonym Duration = nat

record GenericEvent =
  ev_Object :: Object

text \<open>
  A Go slice is \<open>nil\<close> or holds elements; \<open>range\<close> over a \<open>nil\<close> slice runs no
  iteration.
\<close>

datatype 'a slice = nil | Slice "'a list"

fun elems :: "'a slice \<Rightarrow> 'a list" where
  "elems nil = []"
| "elems (Slice xs) = xs"

text \<open>
  \<open>eventToChannelHandler\<close>: its \<open>eventsChan\<close> field always is the one channel of the
  cache that created it (\<open>n.eventChan\<close>), which the model keeps in the state; the
  handler itself keeps the bound name.
\<close>

record eventToChannelHandler =
  name :: string

text \<open>
  The struct \<open>namespacedCache\<close>. The channel is the list of the events sent on it, oldest
  first. A Go \<open>map[string]struct{}\<close> is a set of strings.
\<close>

record namespacedCache =
  caches :: "string \<rightharpoonup> Cache"
  config :: Config
  mapper :: RESTMapper
  scheme :: Scheme
  resync :: Duration
  eventChan :: "GenericEvent list"
  watchedResources :: "string \<rightharpoonup> string set"

text \<open>
  The cache together with the effects it has had on the engines: which engines
  \<open>cache.New\<close> has returned and for which \<open>Options.Namespace\<close>, which engines have been
  started (\<open>go c.Start(ctx)\<close>), and which handlers have been attached to which informer
  (\<open>informer.AddEventHandler\<close>), each in call order.
\<close>

record system = namespacedCache +
  constructed :: "(string \<times> Cache) list"
  started :: "Cache list"
  handlers :: "(Informer \<times> eventToChannelHandler) list"

text \<open>
  What the outside world answers during one call of \<open>Watch\<close>: the result of
  \<open>cache.New\<close> for a namespace, and of \<open>GetInformer\<close> on an engine for an object. The
  answers may differ from one call of \<open>Watch\<close> to the next.
\<close>

record world =
  cache_New :: "string \<Rightarrow> error + Cache"
  GetInformer :: "Cache \<Rightarrow> Object \<Rightarrow> error + Informer"

text \<open>The payload of a raw notification, a Go \<open>interface{}\<close>.\<close>

datatype payload = NilValue | NotAnObject nat | IsObject Object

section \<open>The namespaced cache\<close>

definition EventStream :: "'a namespacedCache_scheme \<Rightarrow> GenericEvent list" where
  "EventStream n = eventChan n"

definition isNamespaced :: "'a namespacedCache_scheme \<Rightarrow> Object \<Rightarrow> error + bool" where
  "isNamespaced n obj =
     (case GVKForObject obj (scheme n) of
        Inl err \<Rightarrow> Inl err
      | Inr gvk \<Rightarrow>
          (case RESTMapping (mapper n) (GroupKind gvk) of
             Inl err \<Rightarrow> Inl err
           | Inr scope \<Rightarrow> Inr (scope = RESTScopeNameNamespace)))"

definition ensureNamespace :: "'a namespacedCache_scheme \<Rightarrow> Object \<Rightarrow> error + unit" where
  "ensureNamespace n obj =
     (case isNamespaced n obj of
        Inl err \<Rightarrow> Inl err
      | Inr namespaced \<Rightarrow>
          if namespaced \<and> GetNamespace obj = ''''
          then Inl (errors_New ''namespaced objects must set their namespace'')
          else Inr ())"

definition watchKey :: "'a namespacedCache_scheme \<Rightarrow> Object \<Rightarrow> error + string" where
  "watchKey n obj =
     (case GVKForObject obj (scheme n) of
        Inl err \<Rightarrow> Inl err
      | Inr gvk \<Rightarrow> Inr (GroupKind_String (GroupKind gvk) @ ''/'' @ GetName obj))"

definition getInformer :: "world \<Rightarrow> system \<Rightarrow> Object \<Rightarrow> (error + Informer) \<times> system" where
  "getInformer w n obj =
     (case ensureNamespace n obj of
        Inl err \<Rightarrow> (Inl err, n)
      | Inr _ \<Rightarrow>
          (case caches n (GetNamespace obj) of
             Some c \<Rightarrow> (GetInformer w c obj, n)
           | None \<Rightarrow>
               (case cache_New w (GetNamespace obj) of
                  Inl err \<Rightarrow> (Inl err, n)
                | Inr c \<Rightarrow>
                    (GetInformer w c obj,
                     n\<lparr>caches := (caches n)(GetNamespace obj \<mapsto> c),
                       constructed := constructed n @ [(GetNamespace obj, c)],
                       started := started n @ [c]\<rparr>))))"

text \<open>
  \<open>watch\<close>. When \<open>getInformer\<close> fails the source returns \<open>nil\<close>, which is success.
  The inner map is shared by reference in Go, so adding the key to it is adding it to the
  entry of the namespace.
\<close>

definition watch :: "world \<Rightarrow> system \<Rightarrow> Object \<Rightarrow> (error + unit) \<times> system" where
  "watch w n obj =
     (case getInformer w n obj of
        (Inl err, n1) \<Rightarrow> (Inr (), n1)
      | (Inr informer, n1) \<Rightarrow>
          (case watchKey n1 obj of
             Inl err \<Rightarrow> (Inl err, n1)
           | Inr key \<Rightarrow>
               (let n2 = n1\<lparr>handlers := handlers n1 @ [(informer, \<lparr>name = GetName obj\<rparr>)]\<rparr>;
                    namespacedWatches =
                      (case watchedResources n2 (GetNamespace obj) of
                         Some ks \<Rightarrow> ks
                       | None \<Rightarrow> {})
                in (Inr (),
                    n2\<lparr>watchedResources :=
                         (watchedResources n2)(GetNamespace obj \<mapsto> insert key namespacedWatches)\<rparr>))))"

definition Watch :: "world \<Rightarrow> system \<Rightarrow> Object \<Rightarrow> (error + unit) \<times> system" where
  "Watch w n obj =
     (case ensureNamespace n obj of
        Inl err \<Rightarrow> (Inl err, n)
      | Inr _ \<Rightarrow>
          (case watchedResources n (GetNamespace obj) of
             None \<Rightarrow> watch w n obj
           | Some namespacedWatches \<Rightarrow>
               (case watchKey n obj of
                  Inl err \<Rightarrow> (Inl err, n)
                | Inr key \<Rightarrow>
                    if key \<notin> namespacedWatches then watch w n obj else (Inr (), n))))"

subsection \<open>The forwarder\<close>

text \<open>
  \<open>queueEventForObject\<close> on the channel. The body of the test on the name is empty
  in the source, so both of its branches go on to the send.
\<close>

definition queueEventForObject ::
  "eventToChannelHandler \<Rightarrow> payload \<Rightarrow> GenericEvent list \<Rightarrow> GenericEvent list" where
  "queueEventForObject e pl ch =
     (case pl of
        NilValue \<Rightarrow> ch
      | NotAnObject _ \<Rightarrow> ch
      | IsObject obj \<Rightarrow>
          if GetName obj \<noteq> name e
          then ch @ [\<lparr>ev_Object = obj\<rparr>]
          else ch @ [\<lparr>ev_Object = obj\<rparr>])"

definition OnAdd :: "eventToChannelHandler \<Rightarrow> payload \<Rightarrow> GenericEvent list \<Rightarrow> GenericEvent list" where
  "OnAdd e obj ch = queueEventForObject e obj ch"

definition OnUpdate ::
  "eventToChannelHandler \<Rightarrow> payload \<Rightarrow> payload \<Rightarrow> GenericEvent list \<Rightarrow> GenericEvent list" where
  "OnUpdate e oldobj obj ch = queueEventForObject e obj ch"

definition OnDelete :: "eventToChannelHandler \<Rightarrow> payload \<Rightarrow> GenericEvent list \<Rightarrow> GenericEvent list" where
  "OnDelete e obj ch = queueEventForObject e obj ch"

subsection \<open>Construction\<close>

record CacheOptions =
  opt_Config :: "Config option"
  opt_Mapper :: "RESTMapper option"
  opt_Scheme :: "Scheme option"
  opt_Resync :: "Duration option"

text \<open>\<open>10 * time.Hour\<close>, in nanoseconds.\<close>

definition defaultResyncTime :: Duration where
  "defaultResyncTime = 10 * 3600000000000"

text \<open>
  \<open>NewNamespacedCache\<close>. The default scheme \<open>scheme.Scheme\<close> of client-go and
  \<open>apiutil.NewDiscoveryRESTMapper\<close> are parameters.
\<close>

definition NewNamespacedCache ::
  "Scheme \<Rightarrow> (Config \<Rightarrow> error + RESTMapper) \<Rightarrow> CacheOptions \<Rightarrow> error + system" where
  "NewNamespacedCache scheme_Scheme NewDiscoveryRESTMapper opts =
     (case opt_Config opts of
        None \<Rightarrow> Inl (errors_New ''Config is required'')
      | Some cfg \<Rightarrow>
          (let sch = (case opt_Scheme opts of None \<Rightarrow> scheme_Scheme | Some s \<Rightarrow> s);
               mp = (case opt_Mapper opts of
                       Some m \<Rightarrow> Inr m
                     | None \<Rightarrow>
                         (case NewDiscoveryRESTMapper cfg of
                            Inl (Error msg) \<Rightarrow>
                              Inl (Error (''could not create RESTMapper from config: '' @ msg))
                          | Inr m \<Rightarrow> Inr m));
               rs = (case opt_Resync opts of None \<Rightarrow> defaultResyncTime | Some r \<Rightarrow> r)
           in case mp of
                Inl err \<Rightarrow> Inl err
              | Inr m \<Rightarrow>
                  Inr \<lparr>caches = Map.empty, config = cfg, mapper = m, scheme = sch, resync = rs,
                       eventChan = [], watchedResources = Map.empty,
                       constructed = [], started = [], handlers = []\<rparr>))"

subsection \<open>Sequences of calls\<close>

text \<open>
  The operations that act on a cache: the two methods of \<open>NamespacedCache\<close>, and the
  three callbacks of a forwarder, which send on the channel of the cache.
\<close>

datatype call =
    Call_Watch world Object
  | Call_EventStream
  | Call_OnAdd eventToChannelHandler payload
  | Call_OnUpdate eventToChannelHandler payload payload
  | Call_OnDelete eventToChannelHandler payload

fun step :: "system \<Rightarrow> call \<Rightarrow> system" where
  "step n (Call_Watch w obj) = snd (Watch w n obj)"
| "step n Call_EventStream = n"
| "step n (Call_OnAdd e obj) = n\<lparr>eventChan := OnAdd e obj (eventChan n)\<rparr>"
| "step n (Call_OnUpdate e oldobj obj) = n\<lparr>eventChan := OnUpdate e oldobj obj (eventChan n)\<rparr>"
| "step n (Call_OnDelete e obj) = n\<lparr>eventChan := OnDelete e obj (eventChan n)\<rparr>"

fun run :: "system \<Rightarrow> call list \<Rightarrow> system" where
  "run n [] = n"
| "run n (c # cs) = run (step n c) cs"

text \<open>A key is registered when the registry has it under the namespace.\<close>

definition registered :: "'a namespacedCache_scheme \<Rightarrow> string \<Rightarrow> string \<Rightarrow> bool" where
  "registered n ns key =
     (case watchedResources n ns of None \<Rightarrow> False | Some ks \<Rightarrow> key \<in> ks)"

section \<open>Owned resources\<close>

text \<open>
  \<open>OwnedResourcesGroup\<close>: the two nested loops, carrying the set of the kinds seen and
  the slice built so far. \<open>klog.Info\<close> only logs. \<open>GetAWSResources\<close> is a parameter.
\<close>

definition visit ::
  "GroupVersionKind set \<times> Object list \<Rightarrow> Object \<Rightarrow> GroupVersionKind set \<times> Object list" where
  "visit acc resource =
     (case acc of (set_, resourceDistinct) \<Rightarrow>
        (let objType = GetObjectKind resource
         in if objType \<notin> set_
            then (insert objType set_, resourceDistinct @ [resource])
            else (set_, resourceDistinct)))"

fun platformGroup_loop ::
  "GroupVersionKind set \<times> Object list \<Rightarrow> Object list \<Rightarrow> GroupVersionKind set \<times> Object list" where
  "platformGroup_loop acc [] = acc"
| "platformGroup_loop acc (resource # rest) = platformGroup_loop (visit acc resource) rest"

fun resourceUnion_loop ::
  "GroupVersionKind set \<times> Object list \<Rightarrow> Object slice list \<Rightarrow> GroupVersionKind set \<times> Object list" where
  "resourceUnion_loop acc [] = acc"
| "resourceUnion_loop acc (platformGroup # rest) =
     resourceUnion_loop (platformGroup_loop acc (elems platformGroup)) rest"

definition distinct_resources :: "Object slice list \<Rightarrow> Object slice" where
  "distinct_resources resourceUnion = Slice (snd (resourceUnion_loop ({}, []) resourceUnion))"

definition OwnedResourcesGroup :: "Object slice \<Rightarrow> Object slice" where
  "OwnedResourcesGroup GetAWSResources = distinct_resources [GetAWSResources]"

section \<open>The infrastructure owner\<close>

type_synonym PlatformType = string

text \<open>\<open>configv1.AWSPlatformType\<close> of the OpenShift API.\<close>

definition AWSPlatformType :: PlatformType where
  "AWSPlatformType = ''AWS''"

record InfrastructureStatus =
  Platform :: PlatformType

record Infrastructure =
  infra_Name :: string
  Status :: InfrastructureStatus

text \<open>An \<open>ObjectKey\<close> is a namespace and a name; of the client only \<open>Get\<close> is used.\<close>

type_synonym ObjectKey = "string \<times> string"
type_synonym Client = "ObjectKey \<Rightarrow> error + Infrastructure"

definition getResources :: "Object slice \<Rightarrow> PlatformType \<Rightarrow> Object slice" where
  "getResources GetAWSResources platformType =
     (if platformType = AWSPlatformType then GetAWSResources else nil)"

text \<open>
  \<open>GetOwner\<close> returns \<open>(nil, nil, err)\<close> when the \<open>Get\<close> fails, and otherwise the
  object read, its resources and no error.
\<close>

definition GetOwner ::
  "Object slice \<Rightarrow> Client \<Rightarrow> ObjectKey \<Rightarrow> error + Infrastructure \<times> Object slice" where
  "GetOwner GetAWSResources c key =
     (case c key of
        Inl err \<Rightarrow> Inl err
      | Inr infra \<Rightarrow> Inr (infra, getResources GetAWSResources (Platform (Status infra))))"

section \<open>Concrete inputs\<close>

text \<open>
  The inputs of scenario 1: two config maps of the namespace \<open>kube-system\<close>, the
  same config map without its namespace, and the cluster-scoped infrastructure object.
\<close>

definition configmap_gvk :: GroupVersionKind where
  "configmap_gvk = \<lparr>Group = '''', Version = ''v1'', Kind = ''ConfigMap''\<rparr>"

definition secret_gvk :: GroupVersionKind where
  "secret_gvk = \<lparr>Group = '''', Version = ''v1'', Kind = ''Secret''\<rparr>"

definition infrastructure_gvk :: GroupVersionKind where
  "infrastructure_gvk =
     \<lparr>Group = ''config.openshift.io'', Version = ''v1'', Kind = ''Infrastructure''\<rparr>"

definition cc_config :: Object where
  "cc_config =
     \<lparr>GetName = ''cc-config'', GetNamespace = ''kube-system'', GetObjectKind = configmap_gvk\<rparr>"

definition other_config :: Object where
  "other_config =
     \<lparr>GetName = ''other-config'', GetNamespace = ''kube-system'', GetObjectKind = configmap_gvk\<rparr>"

definition cc_secret :: Object where
  "cc_secret =
     \<lparr>GetName = ''cc-secret'', GetNamespace = ''kube-system'', GetObjectKind = secret_gvk\<rparr>"

definition unplaced_config :: Object where
  "unplaced_config =
     \<lparr>GetName = ''cc-config'', GetNamespace = '''', GetObjectKind = configmap_gvk\<rparr>"

definition cluster_infrastructure :: Object where
  "cluster_infrastructure =
     \<lparr>GetName = ''cluster'', GetNamespace = '''', GetObjectKind = infrastructure_gvk\<rparr>"

text \<open>A scheme that knows every object by its own kind, and a mapper for three kinds.\<close>

definition example_scheme :: Scheme where
  "example_scheme obj = Inr (GetObjectKind obj)"

definition example_mapper :: RESTMapper where
  "example_mapper gk =
     (if gk_Kind gk = ''ConfigMap'' \<or> gk_Kind gk = ''Secret'' then Inr RESTScopeNameNamespace
      else if gk_Kind gk = ''Infrastructure'' then Inr RESTScopeNameRoot
      else Inl (Error ''no matches for kind''))"

text \<open>A cache as \<open>NewNamespacedCache\<close> returns it.\<close>

definition fresh_cache :: system where
  "fresh_cache =
     \<lparr>caches = Map.empty, config = 0, mapper = example_mapper, scheme = example_scheme,
      resync = defaultResyncTime, eventChan = [], watchedResources = Map.empty,
      constructed = [], started = [], handlers = []\<rparr>"

text \<open>
  Three worlds: one where everything succeeds, one where no engine can be built, and one
  where engines are built but no informer can be had.
\<close>

definition world_up :: world where
  "world_up = \<lparr>cache_New = (\<lambda>ns. Inr 7), GetInformer = (\<lambda>c obj. Inr 3)\<rparr>"

definition world_down :: world where
  "world_down =
     \<lparr>cache_New = (\<lambda>ns. Inl (Error ''connection refused'')),
      GetInformer = (\<lambda>c obj. Inr 3)\<rparr>"

definition world_no_informer :: world where
  "world_no_informer =
     \<lparr>cache_New = (\<lambda>ns. Inr 7),
      GetInformer = (\<lambda>c obj. Inl (Error ''timed out waiting for cache sync''))\<rparr>"

text \<open>A client whose cluster runs on a platform without resources here.\<close>

definition gcp_infrastructure :: Infrastructure where
  "gcp_infrastructure = \<lparr>infra_Name = ''cluster'', Status = \<lparr>Platform = ''GCP''\<rparr>\<rparr>"

definition gcp_client :: Client where
  "gcp_client key = Inr gcp_infrastructure"

section \<open>Properties of the namespaced cache\<close>

lemmas example_defs =
  configmap_gvk_def secret_gvk_def infrastructure_gvk_def cc_config_def other_config_def
  cc_secret_def unplaced_config_def cluster_infrastructure_def example_scheme_def
  example_mapper_def fresh_cache_def world_up_def world_down_def world_no_informer_def

lemmas cache_defs =
  Watch_def watch_def getInformer_def ensureNamespace_def isNamespaced_def watchKey_def
  GVKForObject_def RESTMapping_def GroupKind_def GroupKind_String_def errors_New_def

text \<open>
  The fresh cache is what \<open>NewNamespacedCache\<close> builds from a configuration alone; and
  without a configuration it builds nothing.
\<close>

lemma NewNamespacedCache_fresh:
  "NewNamespacedCache example_scheme (\<lambda>cfg. Inr example_mapper)
     \<lparr>opt_Config = Some 0, opt_Mapper = None, opt_Scheme = None, opt_Resync = None\<rparr> =
   Inr fresh_cache"
  by (simp add: NewNamespacedCache_def fresh_cache_def)

lemma NewNamespacedCache_no_config:
  "opt_Config opts = None \<Longrightarrow>
   NewNamespacedCache sch mk opts = Inl (errors_New ''Config is required'')"
  by (simp add: NewNamespacedCache_def)

subsection \<open>What one call changes\<close>

lemma ensureNamespace_fields:
  "scheme n' = scheme n \<Longrightarrow> mapper n' = mapper n \<Longrightarrow>
   ensureNamespace n' obj = ensureNamespace n obj"
  by (simp add: ensureNamespace_def isNamespaced_def cong: sum.case_cong)

lemma getInformer_cases:
  "getInformer w n obj = (r, n') \<Longrightarrow>
     n' = n \<or>
     (caches n (GetNamespace obj) = None \<and>
      (\<exists>c. cache_New w (GetNamespace obj) = Inr c \<and> r = GetInformer w c obj \<and>
        n' = n\<lparr>caches := (caches n)(GetNamespace obj \<mapsto> c),
               constructed := constructed n @ [(GetNamespace obj, c)],
               started := started n @ [c]\<rparr>))"
  by (auto simp: getInformer_def split: sum.splits option.splits)

lemma getInformer_keeps:
  "getInformer w n obj = (r, n') \<Longrightarrow>
     watchedResources n' = watchedResources n \<and> handlers n' = handlers n \<and>
     eventChan n' = eventChan n \<and> scheme n' = scheme n \<and> mapper n' = mapper n"
  by (auto dest: getInformer_cases)

text \<open>
  \<open>watch\<close> either leaves registry and handlers alone, or it succeeds with an informer
  in hand, one more handler and one more key.
\<close>

lemma watch_cases:
  "watch w n obj = (r, n') \<Longrightarrow>
     (watchedResources n' = watchedResources n \<and> handlers n' = handlers n) \<or>
     (r = Inr () \<and>
      (\<exists>informer key. fst (getInformer w n obj) = Inr informer \<and> watchKey n obj = Inr key \<and>
         handlers n' = handlers n @ [(informer, \<lparr>name = GetName obj\<rparr>)] \<and>
         watchedResources n' =
           (watchedResources n)(GetNamespace obj \<mapsto>
              insert key (case watchedResources n (GetNamespace obj) of
                            Some ks \<Rightarrow> ks | None \<Rightarrow> {}))))"
proof -
  assume w: "watch w n obj = (r, n')"
  obtain r1 n1 where g: "getInformer w n obj = (r1, n1)" by (cases "getInformer w n obj")
  note keep = getInformer_keeps [OF g]
  from keep have wk: "watchKey n1 obj = watchKey n obj" by (simp add: watchKey_def)
  show ?thesis
  proof (cases r1)
    case (Inl err)
    with w g keep show ?thesis by (simp add: watch_def)
  next
    case informer: (Inr informer)
    show ?thesis
    proof (cases "watchKey n obj")
      case (Inl err)
      with w g keep wk informer show ?thesis by (simp add: watch_def)
    next
      case (Inr key)
      with w g wk informer have
        "r = Inr ()" and
        "n' = n1\<lparr>handlers := handlers n1 @ [(informer, \<lparr>name = GetName obj\<rparr>)],
              watchedResources := (watchedResources n1)(GetNamespace obj \<mapsto>
                 insert key (case watchedResources n1 (GetNamespace obj) of
                               Some ks \<Rightarrow> ks | None \<Rightarrow> {}))\<rparr>"
        by (auto simp: watch_def Let_def)
      with keep g informer Inr show ?thesis by simp
    qed
  qed
qed

lemma Watch_cases:
  "Watch w n obj = (r, n') \<Longrightarrow> n' = n \<or> watch w n obj = (r, n')"
  by (auto simp: Watch_def split: sum.splits option.splits if_splits)

text \<open>Once the key of an object is registered, \<open>Watch\<close> on it succeeds and does nothing.\<close>

lemma Watch_registered_noop:
  "ensureNamespace n obj = Inr () \<Longrightarrow> watchKey n obj = Inr key \<Longrightarrow>
   registered n (GetNamespace obj) key \<Longrightarrow> Watch w n obj = (Inr (), n)"
  by (auto simp: Watch_def registered_def split: option.splits)

lemma queueEventForObject_any_name:
  "queueEventForObject e (IsObject obj) ch = ch @ [\<lparr>ev_Object = obj\<rparr>]"
  by (simp add: queueEventForObject_def)

lemma watch_registered:
  "registered n ns key \<Longrightarrow> registered (snd (watch w n obj)) ns key"
proof -
  assume reg: "registered n ns key"
  obtain r n' where w: "watch w n obj = (r, n')" by (cases "watch w n obj")
  from watch_cases [OF w] consider
      (same) "watchedResources n' = watchedResources n"
    | (new) k where "watchedResources n' =
           (watchedResources n)(GetNamespace obj \<mapsto>
              insert k (case watchedResources n (GetNamespace obj) of
                          Some ks \<Rightarrow> ks | None \<Rightarrow> {}))"
    by blast
  then have "registered n' ns key"
  proof cases
    case same
    with reg show ?thesis by (simp add: registered_def)
  next
    case new
    show ?thesis
    proof (cases "ns = GetNamespace obj")
      case True
      with reg new show ?thesis by (simp add: registered_def split: option.splits)
    next
      case False
      with reg new show ?thesis by (simp add: registered_def)
    qed
  qed
  with w show ?thesis by simp
qed

lemma step_registered: "registered n ns key \<Longrightarrow> registered (step n c) ns key"
proof (cases c)
  case (Call_Watch w obj)
  assume r: "registered n ns key"
  obtain res n' where W: "Watch w n obj = (res, n')" by (cases "Watch w n obj")
  from Watch_cases [OF W] r watch_registered [OF r, of w obj] W show ?thesis
    using Call_Watch by auto
qed (simp_all add: registered_def)

subsection \<open>The forwarder\<close>

text \<open>
  C1. A forwarder bound to a name should push nothing for an object of another name.
  The code pushes it: the forwarder bound to \<open>cc-config\<close> sends the notification it
  receives for \<open>other-config\<close>, and after \<open>Watch\<close> on \<open>cc-config\<close> an update of
  \<open>other-config\<close> delivered to that forwarder is on the event stream.
\<close>

theorem queueEventForObject_forwards_other_name:
  "queueEventForObject \<lparr>name = ''cc-config''\<rparr> (IsObject other_config) [] =
     [\<lparr>ev_Object = other_config\<rparr>] \<and>
   handlers (run fresh_cache [Call_Watch world_up cc_config]) =
     [(3, \<lparr>name = ''cc-config''\<rparr>)] \<and>
   EventStream (run fresh_cache
      [Call_Watch world_up cc_config,
       Call_OnUpdate \<lparr>name = ''cc-config''\<rparr> (IsObject other_config) (IsObject other_config)]) =
     [\<lparr>ev_Object = other_config\<rparr>]"
  by (simp add: queueEventForObject_def OnUpdate_def EventStream_def example_defs cache_defs)

subsection \<open>Failures while acquiring the session\<close>

text \<open>
  C2, as stated, fails: when the engine of the namespace is built and only the informer
  cannot be had, \<open>Watch\<close> reports success and the namespace is in the pool afterwards.
\<close>

theorem Watch_informer_failure_memoizes:
  "GetInformer world_no_informer 7 cc_config = Inl (Error ''timed out waiting for cache sync'') \<and>
   fst (Watch world_no_informer fresh_cache cc_config) = Inr () \<and>
   caches (snd (Watch world_no_informer fresh_cache cc_config)) ''kube-system'' = Some 7"
  by (simp add: example_defs cache_defs)

text \<open>
  C2, amended. Take a \<open>Watch\<close> that passes validation for a namespace that is not in
  the pool. When the construction of the engine fails, \<open>getInformer\<close> hands that error to
  \<open>watch\<close> and the namespace is not memoized: the state after \<open>Watch\<close>, the pool
  included, is the state before. When the engine is built and only the informer cannot be
  had, \<open>getInformer\<close> hands that error to \<open>watch\<close> as well, but the engine stays
  memoized and started: the state after \<open>getInformer\<close>, and after \<open>Watch\<close> when the key
  of the object was not registered yet, is the state before with the engine added to the
  pool, so that registry, forwarders and event stream are as before.
\<close>

theorem acquisition_failure_pool:
  assumes "ensureNamespace n obj = Inr ()"
    and "caches n (GetNamespace obj) = None"
  shows
    "(cache_New w (GetNamespace obj) = Inl err \<longrightarrow>
        getInformer w n obj = (Inl err, n) \<and> snd (Watch w n obj) = n) \<and>
     (cache_New w (GetNamespace obj) = Inr c \<and> GetInformer w c obj = Inl err \<longrightarrow>
        getInformer w n obj =
          (Inl err,
           n\<lparr>caches := (caches n)(GetNamespace obj \<mapsto> c),
             constructed := constructed n @ [(GetNamespace obj, c)],
             started := started n @ [c]\<rparr>) \<and>
        (watchKey n obj = Inr key \<and> \<not> registered n (GetNamespace obj) key \<longrightarrow>
           snd (Watch w n obj) =
             n\<lparr>caches := (caches n)(GetNamespace obj \<mapsto> c),
               constructed := constructed n @ [(GetNamespace obj, c)],
               started := started n @ [c]\<rparr>))"
proof (intro conjI impI)
  assume "cache_New w (GetNamespace obj) = Inl err"
  with assms show "getInformer w n obj = (Inl err, n)"
    by (simp add: getInformer_def)
  then show "snd (Watch w n obj) = n"
    using assms(1) by (auto simp: Watch_def watch_def split: option.splits sum.splits)
next
  let ?n' = "n\<lparr>caches := (caches n)(GetNamespace obj \<mapsto> c),
             constructed := constructed n @ [(GetNamespace obj, c)],
             started := started n @ [c]\<rparr>"
  assume "cache_New w (GetNamespace obj) = Inr c \<and> GetInformer w c obj = Inl err"
  with assms show g: "getInformer w n obj = (Inl err, ?n')"
    by (simp add: getInformer_def)
  assume "watchKey n obj = Inr key \<and> \<not> registered n (GetNamespace obj) key"
  then have "Watch w n obj = watch w n obj"
    using assms(1) by (auto simp: Watch_def registered_def split: option.splits)
  with g show "snd (Watch w n obj) = ?n'"
    by (simp add: watch_def)
qed

theorem acquisition_failure_pool_witness:
  "ensureNamespace fresh_cache cc_config = Inr () \<and>
   caches fresh_cache (GetNamespace cc_config) = None \<and>
   cache_New world_down (GetNamespace cc_config) = Inl (Error ''connection refused'') \<and>
   getInformer world_down fresh_cache cc_config = (Inl (Error ''connection refused''), fresh_cache) \<and>
   snd (Watch world_down fresh_cache cc_config) = fresh_cache \<and>
   cache_New world_no_informer (GetNamespace cc_config) = Inr 7 \<and>
   GetInformer world_no_informer 7 cc_config = Inl (Error ''timed out waiting for cache sync'') \<and>
   watchKey fresh_cache cc_config = Inr ''ConfigMap/cc-config'' \<and>
   \<not> registered fresh_cache (GetNamespace cc_config) ''ConfigMap/cc-config'' \<and>
   fst (getInformer world_no_informer fresh_cache cc_config) =
     Inl (Error ''timed out waiting for cache sync'') \<and>
   snd (getInformer world_no_informer fresh_cache cc_config) =
     snd (Watch world_no_informer fresh_cache cc_config) \<and>
   caches (snd (Watch world_no_informer fresh_cache cc_config)) ''kube-system'' = Some 7 \<and>
   constructed (snd (Watch world_no_informer fresh_cache cc_config)) = [(''kube-system'', 7)] \<and>
   started (snd (Watch world_no_informer fresh_cache cc_config)) = [7] \<and>
   watchedResources (snd (Watch world_no_informer fresh_cache cc_config)) =
     watchedResources fresh_cache \<and>
   handlers (snd (Watch world_no_informer fresh_cache cc_config)) = handlers fresh_cache"
proof -
  have a: "ensureNamespace fresh_cache cc_config = Inr ()"
    by (simp add: example_defs cache_defs)
  have b: "caches fresh_cache (GetNamespace cc_config) = None"
    by (simp add: example_defs)
  have c: "cache_New world_down (GetNamespace cc_config) = Inl (Error ''connection refused'')"
    by (simp add: example_defs)
  have d: "cache_New world_no_informer (GetNamespace cc_config) = Inr 7"
    by (simp add: example_defs)
  have e: "GetInformer world_no_informer 7 cc_config = Inl (Error ''timed out waiting for cache sync'')"
    by (simp add: example_defs)
  have f: "watchKey fresh_cache cc_config = Inr ''ConfigMap/cc-config''"
    by (simp add: example_defs cache_defs)
  have g: "\<not> registered fresh_cache (GetNamespace cc_config) ''ConfigMap/cc-config''"
    by (simp add: registered_def fresh_cache_def)
  have ns: "GetNamespace cc_config = ''kube-system''"
    by (simp add: cc_config_def)
  note down = acquisition_failure_pool
      [where n = fresh_cache and obj = cc_config and w = world_down
         and err = "Error (''connection refused'')", OF a b, THEN conjunct1, rule_format, OF c]
  note noinf = acquisition_failure_pool
      [where n = fresh_cache and obj = cc_config and w = world_no_informer and c = 7
         and err = "Error (''timed out waiting for cache sync'')" and key = "''ConfigMap/cc-config''",
       OF a b, THEN conjunct2, rule_format, OF conjI, OF d e]
  note gi = noinf [THEN conjunct1]
  note wa = noinf [THEN conjunct2, rule_format, OF conjI, OF f g]
  have h1: "fst (getInformer world_no_informer fresh_cache cc_config) =
     Inl (Error ''timed out waiting for cache sync'')"
    by (simp only: gi fst_conv)
  have h2: "snd (getInformer world_no_informer fresh_cache cc_config) =
     snd (Watch world_no_informer fresh_cache cc_config)"
    by (simp only: gi wa snd_conv)
  have h3: "caches (snd (Watch world_no_informer fresh_cache cc_config)) ''kube-system'' = Some 7"
    unfolding wa by (simp add: ns)
  have h4: "constructed (snd (Watch world_no_informer fresh_cache cc_config)) = [(''kube-system'', 7)]"
    unfolding wa by (simp add: ns fresh_cache_def)
  have h5: "started (snd (Watch world_no_informer fresh_cache cc_config)) = [7]"
    unfolding wa by (simp add: fresh_cache_def)
  have h6: "watchedResources (snd (Watch world_no_informer fresh_cache cc_config)) =
     watchedResources fresh_cache"
    unfolding wa by simp
  have h7: "handlers (snd (Watch world_no_informer fresh_cache cc_config)) = handlers fresh_cache"
    unfolding wa by simp
  from a b c d e f g down h1 h2 h3 h4 h5 h6 h7 show ?thesis by (intro conjI) simp_all
qed

subsection \<open>Idempotence\<close>

text \<open>
  C3. After a successful \<open>Watch\<close> on an object, a later \<open>Watch\<close> on it should create
  nothing. In the code a \<open>Watch\<close> that could not build its engine still returns success
  and registers nothing, so the next \<open>Watch\<close> on the same object, once the engine can be
  built, creates an engine, a forwarder and a registry entry.
\<close>

theorem Watch_success_without_registration:
  "Watch world_down fresh_cache cc_config = (Inr (), fresh_cache) \<and>
   \<not> registered fresh_cache ''kube-system'' ''ConfigMap/cc-config'' \<and>
   fst (Watch world_up (snd (Watch world_down fresh_cache cc_config)) cc_config) = Inr () \<and>
   constructed (snd (Watch world_up (snd (Watch world_down fresh_cache cc_config)) cc_config)) =
     [(''kube-system'', 7)] \<and>
   handlers (snd (Watch world_up (snd (Watch world_down fresh_cache cc_config)) cc_config)) =
     [(3, \<lparr>name = ''cc-config''\<rparr>)] \<and>
   registered (snd (Watch world_up (snd (Watch world_down fresh_cache cc_config)) cc_config))
     ''kube-system'' ''ConfigMap/cc-config''"
proof -
  have first: "Watch world_down fresh_cache cc_config = (Inr (), fresh_cache)"
    by (simp add: example_defs cache_defs)
  have "\<not> registered fresh_cache ''kube-system'' ''ConfigMap/cc-config''"
    by (simp add: registered_def fresh_cache_def)
  moreover have
    "fst (Watch world_up fresh_cache cc_config) = Inr () \<and>
     constructed (snd (Watch world_up fresh_cache cc_config)) = [(''kube-system'', 7)] \<and>
     handlers (snd (Watch world_up fresh_cache cc_config)) = [(3, \<lparr>name = ''cc-config''\<rparr>)] \<and>
     registered (snd (Watch world_up fresh_cache cc_config)) ''kube-system'' ''ConfigMap/cc-config''"
    by (simp add: example_defs cache_defs registered_def)
  ultimately show ?thesis by (simp add: first)
qed

subsection \<open>Validation of the namespace\<close>

text \<open>
  C4. \<open>Watch\<close> on an object of a namespace-scoped kind with an empty namespace fails
  with the error of \<open>ensureNamespace\<close> and leaves the whole state as it was: no engine is
  built, pool and registry are unchanged, nothing is sent on the event stream.
\<close>

theorem Watch_empty_namespace_rejected:
  "isNamespaced n obj = Inr True \<Longrightarrow> GetNamespace obj = '''' \<Longrightarrow>
   Watch w n obj = (Inl (errors_New ''namespaced objects must set their namespace''), n)"
  by (simp add: Watch_def ensureNamespace_def)

theorem Watch_empty_namespace_rejected_witness:
  "isNamespaced fresh_cache unplaced_config = Inr True \<and>
   GetNamespace unplaced_config = '''' \<and>
   Watch world_up fresh_cache unplaced_config =
     (Inl (errors_New ''namespaced objects must set their namespace''), fresh_cache) \<and>
   EventStream fresh_cache = []"
proof -
  have a: "isNamespaced fresh_cache unplaced_config = Inr True"
    by (simp add: example_defs cache_defs)
  have b: "GetNamespace unplaced_config = ''''"
    by (simp add: example_defs)
  from Watch_empty_namespace_rejected [OF a b, of world_up] a b show ?thesis
    by (simp add: EventStream_def fresh_cache_def)
qed

subsection \<open>Order of registration\<close>

text \<open>
  C5. The key is recorded only after the forwarder has been attached: whenever \<open>Watch\<close>
  returns an error, and also whenever acquiring the informer fails, the registry is
  exactly as it was before the call, and so is the list of the attached forwarders.
\<close>

theorem Watch_failure_registry_unchanged:
  "fst (Watch w n obj) = Inl err \<or> fst (getInformer w n obj) = Inl err \<Longrightarrow>
   watchedResources (snd (Watch w n obj)) = watchedResources n \<and>
   handlers (snd (Watch w n obj)) = handlers n"
proof -
  assume fail: "fst (Watch w n obj) = Inl err \<or> fst (getInformer w n obj) = Inl err"
  obtain r n' where W: "Watch w n obj = (r, n')" by (cases "Watch w n obj")
  from Watch_cases [OF W] show ?thesis
  proof
    assume "n' = n" with W show ?thesis by simp
  next
    assume w: "watch w n obj = (r, n')"
    from watch_cases [OF w] fail W show ?thesis by auto
  qed
qed

text \<open>
  An instance: a cache that already watches \<open>cc-config\<close> is asked for \<open>cc-secret\<close>
  while no informer can be had.
\<close>

theorem Watch_failure_registry_unchanged_witness:
  "fst (getInformer world_no_informer (snd (Watch world_up fresh_cache cc_config)) cc_secret) =
     Inl (Error ''timed out waiting for cache sync'') \<and>
   watchedResources
     (snd (Watch world_no_informer (snd (Watch world_up fresh_cache cc_config)) cc_secret)) =
     watchedResources (snd (Watch world_up fresh_cache cc_config)) \<and>
   handlers
     (snd (Watch world_no_informer (snd (Watch world_up fresh_cache cc_config)) cc_secret)) =
     handlers (snd (Watch world_up fresh_cache cc_config))"
proof -
  have a: "fst (getInformer world_no_informer (snd (Watch world_up fresh_cache cc_config)) cc_secret) =
     Inl (Error ''timed out waiting for cache sync'')"
    by (simp add: example_defs cache_defs)
  from Watch_failure_registry_unchanged [OF disjI2, OF a] a show ?thesis by simp
qed

subsection \<open>The session pool\<close>

text \<open>
  C6. The pool is memoized. For a namespace that is not in the pool yet (the empty
  namespace of the cluster scope included), a request that passes validation and whose
  construction succeeds builds exactly one engine with that namespace, starts it and
  stores it; every later request for the same namespace, whatever the world answers then,
  asks the stored engine and builds nothing.
\<close>

theorem getInformer_memoized:
  assumes "ensureNamespace n obj = Inr ()"
    and "caches n (GetNamespace obj) = None"
    and "cache_New w (GetNamespace obj) = Inr c"
    and "GetNamespace obj' = GetNamespace obj"
    and "ensureNamespace n obj' = Inr ()"
  shows "fst (getInformer w n obj) = GetInformer w c obj \<and>
     snd (getInformer w n obj) =
       n\<lparr>caches := (caches n)(GetNamespace obj \<mapsto> c),
         constructed := constructed n @ [(GetNamespace obj, c)],
         started := started n @ [c]\<rparr> \<and>
     getInformer w' (snd (getInformer w n obj)) obj' =
       (GetInformer w' c obj', snd (getInformer w n obj))"
proof -
  let ?n' = "n\<lparr>caches := (caches n)(GetNamespace obj \<mapsto> c),
         constructed := constructed n @ [(GetNamespace obj, c)],
         started := started n @ [c]\<rparr>"
  have first: "getInformer w n obj = (GetInformer w c obj, ?n')"
    using assms(1-3) by (simp add: getInformer_def)
  have "ensureNamespace ?n' obj' = ensureNamespace n obj'"
    by (rule ensureNamespace_fields) simp_all
  with assms(5) have "getInformer w' ?n' obj' = (GetInformer w' c obj', ?n')"
    using assms(4) by (simp add: getInformer_def)
  with first show ?thesis by simp
qed

text \<open>An instance for the cluster scope, whose namespace is empty.\<close>

theorem getInformer_memoized_witness:
  "ensureNamespace fresh_cache cluster_infrastructure = Inr () \<and>
   caches fresh_cache (GetNamespace cluster_infrastructure) = None \<and>
   cache_New world_up (GetNamespace cluster_infrastructure) = Inr 7 \<and>
   constructed (snd (getInformer world_up fresh_cache cluster_infrastructure)) = [('''', 7)] \<and>
   started (snd (getInformer world_up fresh_cache cluster_infrastructure)) = [7] \<and>
   caches (snd (getInformer world_up fresh_cache cluster_infrastructure)) '''' = Some 7 \<and>
   getInformer world_down (snd (getInformer world_up fresh_cache cluster_infrastructure))
       cluster_infrastructure =
     (Inr 3, snd (getInformer world_up fresh_cache cluster_infrastructure))"
proof -
  have a: "ensureNamespace fresh_cache cluster_infrastructure = Inr ()"
    by (simp add: example_defs cache_defs)
  have b: "caches fresh_cache (GetNamespace cluster_infrastructure) = None"
    by (simp add: example_defs)
  have c: "cache_New world_up (GetNamespace cluster_infrastructure) = Inr 7"
    by (simp add: example_defs)
  have d: "GetInformer world_down 7 cluster_infrastructure = Inr 3"
    by (simp add: example_defs)
  have e: "GetNamespace cluster_infrastructure = ''''"
    by (simp add: example_defs)
  note m = getInformer_memoized [OF a b c refl a, of world_down]
  from m [THEN conjunct2, THEN conjunct1] have s: "snd (getInformer world_up fresh_cache cluster_infrastructure) =
      fresh_cache\<lparr>caches := (caches fresh_cache)(GetNamespace cluster_infrastructure \<mapsto> 7),
        constructed := constructed fresh_cache @ [(GetNamespace cluster_infrastructure, 7)],
        started := started fresh_cache @ [7]\<rparr>"
    by simp
  have f: "constructed (snd (getInformer world_up fresh_cache cluster_infrastructure)) = [('''', 7)]"
    unfolding s by (simp add: e fresh_cache_def)
  have g: "started (snd (getInformer world_up fresh_cache cluster_infrastructure)) = [7]"
    unfolding s by (simp add: fresh_cache_def)
  have h: "caches (snd (getInformer world_up fresh_cache cluster_infrastructure)) '''' = Some 7"
    unfolding s by (simp add: e)
  from m [THEN conjunct2, THEN conjunct2] have "getInformer world_down (snd (getInformer world_up fresh_cache cluster_infrastructure))
       cluster_infrastructure =
     (Inr 3, snd (getInformer world_up fresh_cache cluster_infrastructure))"
    by (simp only: d)
  with a b c f g h show ?thesis by simp
qed

subsection \<open>The watch key\<close>

text \<open>
  C7. When the kind of the object resolves, the key is the group-kind, a slash and the
  name of the object. \<open>watchKey\<close> fails exactly when the resolution fails, with the
  error of the resolution, which is also the error \<open>isNamespaced\<close> then returns. The key
  depends on the scheme and the object alone, and computing it changes no state.
\<close>

theorem watchKey_format:
  "(GVKForObject obj (scheme n) = Inr gvk \<longrightarrow>
      watchKey n obj = Inr (GroupKind_String (GroupKind gvk) @ ''/'' @ GetName obj)) \<and>
   (watchKey n obj = Inl err \<longleftrightarrow> GVKForObject obj (scheme n) = Inl err) \<and>
   (GVKForObject obj (scheme n) = Inl err \<longrightarrow> isNamespaced n obj = Inl err) \<and>
   (scheme n' = scheme n \<longrightarrow> watchKey n' obj = watchKey n obj)"
  by (auto simp: watchKey_def isNamespaced_def split: sum.splits)

theorem watchKey_format_witness:
  "GVKForObject cluster_infrastructure (scheme fresh_cache) = Inr infrastructure_gvk \<and>
   watchKey fresh_cache cluster_infrastructure = Inr ''Infrastructure.config.openshift.io/cluster'' \<and>
   scheme (snd (Watch world_up fresh_cache cc_config)) = scheme fresh_cache \<and>
   watchKey (snd (Watch world_up fresh_cache cc_config)) cluster_infrastructure =
     watchKey fresh_cache cluster_infrastructure"
proof -
  have a: "GVKForObject cluster_infrastructure (scheme fresh_cache) = Inr infrastructure_gvk"
    by (simp add: example_defs GVKForObject_def)
  have b: "scheme (snd (Watch world_up fresh_cache cc_config)) = scheme fresh_cache"
    by (simp add: example_defs cache_defs)
  have c: "GroupKind_String (GroupKind infrastructure_gvk) @ ''/'' @ GetName cluster_infrastructure =
     ''Infrastructure.config.openshift.io/cluster''"
    by (simp add: example_defs GroupKind_String_def GroupKind_def)
  from watchKey_format [of cluster_infrastructure fresh_cache infrastructure_gvk
      "Error ''''" "snd (Watch world_up fresh_cache cc_config)"] a b c
  show ?thesis by simp
qed

subsection \<open>The registry only grows\<close>

text \<open>
  C8. No operation removes an entry of the registry: a key that is registered under a
  namespace stays registered after any sequence of \<open>Watch\<close> and \<open>EventStream\<close> calls
  and of notifications delivered to forwarders.
\<close>

theorem registry_monotone:
  "registered n ns key \<Longrightarrow> registered (run n cs) ns key"
  by (induction cs arbitrary: n) (simp_all add: step_registered)

theorem registry_monotone_witness:
  "registered (run fresh_cache [Call_Watch world_up cc_config])
     ''kube-system'' ''ConfigMap/cc-config'' \<and>
   registered
     (run (run fresh_cache [Call_Watch world_up cc_config])
        [Call_Watch world_up cc_secret, Call_EventStream,
         Call_OnDelete \<lparr>name = ''cc-config''\<rparr> (IsObject cc_config),
         Call_Watch world_down cluster_infrastructure])
     ''kube-system'' ''ConfigMap/cc-config''"
proof -
  have a: "registered (run fresh_cache [Call_Watch world_up cc_config])
     ''kube-system'' ''ConfigMap/cc-config''"
    by (simp add: example_defs cache_defs registered_def)
  show ?thesis by (intro conjI) (rule a, rule registry_monotone [OF a])
qed

section \<open>Properties of the owned resources\<close>

lemma visit_invariant:
  "visit (S, rd) x = (S', rd') \<Longrightarrow> S = GetObjectKind ` set rd \<Longrightarrow>
   distinct (map GetObjectKind rd) \<Longrightarrow>
   S' = GetObjectKind ` set rd' \<and> distinct (map GetObjectKind rd')"
  by (auto simp: visit_def Let_def split: if_splits)

text \<open>
  The loop keeps its two variables in step: the set holds the kinds of the resources
  kept so far, and no two of those have the same kind.
\<close>

lemma platformGroup_loop_invariant:
  "platformGroup_loop (S, rd) xs = (S', rd') \<Longrightarrow> S = GetObjectKind ` set rd \<Longrightarrow>
   distinct (map GetObjectKind rd) \<Longrightarrow>
   S' = GetObjectKind ` set rd' \<and> distinct (map GetObjectKind rd')"
proof (induction xs arbitrary: S rd)
  case Nil
  then show ?case by auto
next
  case (Cons x xs)
  obtain S1 rd1 where v: "visit (S, rd) x = (S1, rd1)" by (cases "visit (S, rd) x")
  from visit_invariant [OF v Cons.prems(2,3)]
  have inv: "S1 = GetObjectKind ` set rd1" "distinct (map GetObjectKind rd1)" by simp_all
  from Cons.prems(1) v have "platformGroup_loop (S1, rd1) xs = (S', rd')" by simp
  then show ?case using inv by (rule Cons.IH)
qed

lemma upt_Suc_shift: "[0..<Suc n] = 0 # map Suc [0..<n]"
  by (simp add: upt_conv_Cons map_Suc_upt del: upt_Suc)

text \<open>
  What the loop appends: the resources at the positions whose kind is neither in the
  set at the start nor at an earlier position.
\<close>

lemma platformGroup_loop_first:
  "platformGroup_loop (S, rd) xs =
     (S \<union> GetObjectKind ` set xs,
      rd @ map ((!) xs)
             (filter (\<lambda>i. GetObjectKind (xs ! i) \<notin> S \<union> GetObjectKind ` set (take i xs))
                [0..<length xs]))"
proof (induction xs arbitrary: S rd)
  case Nil
  show ?case by simp
next
  case (Cons x xs)
  show ?case
  proof (cases "GetObjectKind x \<in> S")
    case True
    then have v: "visit (S, rd) x = (S, rd)" by (simp add: visit_def)
    from True have absorb: "\<And>A. insert (GetObjectKind x) (S \<union> A) = S \<union> A" by auto
    from True have same:
      "\<And>k Q. (k \<notin> S \<and> k \<noteq> GetObjectKind x \<and> Q) = (k \<notin> S \<and> Q)" by auto
    show ?thesis
      unfolding platformGroup_loop.simps v Cons.IH length_Cons upt_Suc_shift
      using True by (simp add: filter_map o_def absorb same)
  next
    case False
    then have v: "visit (S, rd) x = (insert (GetObjectKind x) S, rd @ [x])"
      by (simp add: visit_def)
    show ?thesis
      unfolding platformGroup_loop.simps v Cons.IH length_Cons upt_Suc_shift
      using False by (simp add: filter_map o_def conj_left_commute)
  qed
qed

lemma platformGroup_loop_append:
  "platformGroup_loop acc (xs @ ys) = platformGroup_loop (platformGroup_loop acc xs) ys"
  by (induction xs arbitrary: acc) simp_all

lemma resourceUnion_loop_concat:
  "resourceUnion_loop acc u = platformGroup_loop acc (concat (map elems u))"
  by (induction u arbitrary: acc) (simp_all add: platformGroup_loop_append)

text \<open>
  C9. \<open>OwnedResourcesGroup\<close> runs the loops on the one list of the AWS platform. For
  any union of per-platform lists, laid end to end, the result is never \<open>nil\<close>, no kind
  occurs twice in it, and it consists of the resources at the positions whose kind does
  not occur at an earlier position, in the order of those positions.
\<close>

theorem OwnedResourcesGroup_first_occurrences:
  "OwnedResourcesGroup aws = distinct_resources [aws] \<and>
   (\<exists>r. distinct_resources u = Slice r \<and>
        distinct (map GetObjectKind r) \<and>
        r = map ((!) (concat (map elems u)))
              (filter (\<lambda>i. GetObjectKind (concat (map elems u) ! i)
                             \<notin> GetObjectKind ` set (take i (concat (map elems u))))
                 [0..<length (concat (map elems u))]))"
proof -
  let ?xs = "concat (map elems u)"
  obtain S r where l: "platformGroup_loop ({}, []) ?xs = (S, r)"
    by (cases "platformGroup_loop ({}, []) ?xs")
  from platformGroup_loop_invariant [OF l] have "distinct (map GetObjectKind r)" by simp
  moreover from l have "r = map ((!) ?xs)
       (filter (\<lambda>i. GetObjectKind (?xs ! i) \<notin> GetObjectKind ` set (take i ?xs)) [0..<length ?xs])"
    by (simp add: platformGroup_loop_first)
  moreover from l have "distinct_resources u = Slice r"
    by (simp add: distinct_resources_def resourceUnion_loop_concat)
  ultimately show ?thesis by (simp add: OwnedResourcesGroup_def)
qed

text \<open>An instance: the second config map is dropped, the secret after it is kept.\<close>

theorem OwnedResourcesGroup_first_occurrences_witness:
  "OwnedResourcesGroup (Slice [cc_config, other_config, cc_secret]) =
     Slice [cc_config, cc_secret] \<and>
   distinct (map GetObjectKind [cc_config, cc_secret])"
proof -
  have ev: "distinct_resources [Slice [cc_config, other_config, cc_secret]] =
      Slice [cc_config, cc_secret]"
    by (simp add: distinct_resources_def visit_def Let_def example_defs)
  from OwnedResourcesGroup_first_occurrences
         [of "Slice [cc_config, other_config, cc_secret]"
             "[Slice [cc_config, other_config, cc_secret]]"]
  obtain r where r: "OwnedResourcesGroup (Slice [cc_config, other_config, cc_secret]) =
        distinct_resources [Slice [cc_config, other_config, cc_secret]]"
      "distinct_resources [Slice [cc_config, other_config, cc_secret]] = Slice r"
      "distinct (map GetObjectKind r)"
    by blast
  from r(2) ev have "r = [cc_config, cc_secret]" by simp
  with r ev show ?thesis by simp
qed

section \<open>Properties of the infrastructure owner\<close>

text \<open>
  C10. For every platform type other than AWS, \<open>getResources\<close> returns \<open>nil\<close>; so
  \<open>GetOwner\<close>, when the \<open>Get\<close> succeeds on an infrastructure object whose status names
  such a platform, returns that object and a \<open>nil\<close> list of resources, and no error.
\<close>

theorem getResources_unrecognized_nil:
  "platformType \<noteq> AWSPlatformType \<Longrightarrow>
     getResources aws platformType = nil \<and>
     (c key = Inr infra \<and> Platform (Status infra) = platformType \<longrightarrow>
        GetOwner aws c key = Inr (infra, nil))"
  by (auto simp: getResources_def GetOwner_def)

theorem getResources_unrecognized_nil_witness:
  "''GCP'' \<noteq> AWSPlatformType \<and>
   gcp_client ('''', ''cluster'') = Inr gcp_infrastructure \<and>
   Platform (Status gcp_infrastructure) = ''GCP'' \<and>
   getResources (Slice [cc_config]) ''GCP'' = nil \<and>
   GetOwner (Slice [cc_config]) gcp_client ('''', ''cluster'') = Inr (gcp_infrastructure, nil)"
proof -
  have a: "''GCP'' \<noteq> AWSPlatformType" by (simp add: AWSPlatformType_def)
  have b: "gcp_client ('''', ''cluster'') = Inr gcp_infrastructure" by (simp add: gcp_client_def)
  have c: "Platform (Status gcp_infrastructure) = ''GCP''" by (simp add: gcp_infrastructure_def)
  from getResources_unrecognized_nil
         [OF a, of "Slice [cc_config]" gcp_client "('''', ''cluster'')" gcp_infrastructure]
       a b c
  show ?thesis by simp
qed

end
